theory Spec2Isabelle
  imports Main
begin

section \<open>Data model (game\_state.py)\<close>

text \<open>
  The two enumerations of \<^verbatim>\<open>game_state.py\<close> and the two pydantic models.
  Python integers are unbounded, so every integer field and argument is an \<open>int\<close>.
  The field \<^verbatim>\<open>QuartoPiece.id\<close> is called \<open>piece_id\<close> here, because \<open>id\<close>
  is the identity function of HOL.
\<close>

datatype GameStatus = ONGOING | FINISHED | DRAW

datatype Player = PLAYER1 | PLAYER2 | ROBOT

record QuartoPiece =
  piece_id :: int
  tall :: bool
  square :: bool
  light :: bool
  solid :: bool

record GameState =
  game_id :: string
  current_player :: Player
  board :: "QuartoPiece option list list"
  available_pieces :: "int set"
  selected_piece :: "QuartoPiece option"
  game_status :: GameStatus
  winner :: "Player option"
  turn_count :: int

text \<open>
  The exceptions the modelled code can raise: \<^verbatim>\<open>IndexError\<close> from list indexing,
  \<^verbatim>\<open>KeyError\<close> from \<^verbatim>\<open>set.remove\<close>, \<^verbatim>\<open>ValueError\<close> from
  \<^verbatim>\<open>create_piece_from_id\<close>, and \<^verbatim>\<open>AttributeError\<close> from reading a field of
  \<^verbatim>\<open>None\<close>. A function that only reads returns \<open>py_error + 'a\<close>; a method that
  mutates the state in place returns the outcome together with the state as the call leaves it,
  so that the state left behind by a raised exception is part of the model.
\<close>

datatype py_error = IndexError | KeyError | ValueError | AttributeError

subsection \<open>Python primitives used by the engine\<close>

text \<open>\<^verbatim>\<open>range(n)\<close> as iterated by the \<^verbatim>\<open>for\<close> statements and comprehensions.\<close>

definition py_range :: "int \<Rightarrow> int list" where
  "py_range n = [0..n - 1]"

text \<open>\<^verbatim>\<open>xs[i]\<close>: an index in \<open>[-len, len)\<close> is accepted, negative ones count from the end.\<close>

definition list_getitem :: "'a list \<Rightarrow> int \<Rightarrow> py_error + 'a" where
  "list_getitem xs i =
     (if 0 \<le> i \<and> i < int (length xs) then Inr (xs ! nat i)
      else if - int (length xs) \<le> i \<and> i < 0 then Inr (xs ! nat (int (length xs) + i))
      else Inl IndexError)"

text \<open>\<^verbatim>\<open>xs[i] = v\<close>, with the same index rule.\<close>

definition list_setitem :: "'a list \<Rightarrow> int \<Rightarrow> 'a \<Rightarrow> py_error + 'a list" where
  "list_setitem xs i v =
     (if 0 \<le> i \<and> i < int (length xs) then Inr (xs[nat i := v])
      else if - int (length xs) \<le> i \<and> i < 0 then Inr (xs[nat (int (length xs) + i) := v])
      else Inl IndexError)"

text \<open>\<^verbatim>\<open>board[row][col]\<close> and \<^verbatim>\<open>board[row][col] = v\<close> on the nested list.\<close>

definition board_getitem :: "'a list list \<Rightarrow> int \<Rightarrow> int \<Rightarrow> py_error + 'a" where
  "board_getitem b row col =
     (case list_getitem b row of
        Inl e \<Rightarrow> Inl e
      | Inr cells \<Rightarrow> list_getitem cells col)"

definition board_setitem :: "'a list list \<Rightarrow> int \<Rightarrow> int \<Rightarrow> 'a \<Rightarrow> py_error + 'a list list" where
  "board_setitem b row col v =
     (case list_getitem b row of
        Inl e \<Rightarrow> Inl e
      | Inr cells \<Rightarrow>
          (case list_setitem cells col v of
             Inl e \<Rightarrow> Inl e
           | Inr cells' \<Rightarrow> list_setitem b row cells'))"

text \<open>\<^verbatim>\<open>s.remove(x)\<close> raises \<^verbatim>\<open>KeyError\<close> when \<open>x\<close> is not a member.\<close>

definition set_remove :: "int set \<Rightarrow> int \<Rightarrow> py_error + int set" where
  "set_remove s x = (if x \<in> s then Inr (s - {x}) else Inl KeyError)"

text \<open>A list comprehension \<^verbatim>\<open>[f(i) for i in xs]\<close> whose body may raise.\<close>

fun collect :: "('a \<Rightarrow> py_error + 'b) \<Rightarrow> 'a list \<Rightarrow> py_error + 'b list" where
  "collect f [] = Inr []"
| "collect f (x # xs) =
     (case f x of
        Inl e \<Rightarrow> Inl e
      | Inr v \<Rightarrow> (case collect f xs of Inl e \<Rightarrow> Inl e | Inr vs \<Rightarrow> Inr (v # vs)))"

text \<open>
  \<^verbatim>\<open>any(f(x) for x in xs)\<close>, and equally the loop
  \<^verbatim>\<open>for x in xs: if f(x): return True\<close> followed by a \<^verbatim>\<open>False\<close> result: both stop at
  the first true value and at the first exception.
\<close>

fun any_py :: "('a \<Rightarrow> py_error + bool) \<Rightarrow> 'a list \<Rightarrow> py_error + bool" where
  "any_py f [] = Inr False"
| "any_py f (x # xs) =
     (case f x of
        Inl e \<Rightarrow> Inl e
      | Inr True \<Rightarrow> Inr True
      | Inr False \<Rightarrow> any_py f xs)"

subsection \<open>GameState\<close>

text \<open>
  \<^verbatim>\<open>GameState(game_id=g, current_player=p)\<close>: the two required fields, every other
  field from its default (\<^verbatim>\<open>default_factory\<close> for the board and the pool).
\<close>

definition new_game :: "string \<Rightarrow> Player \<Rightarrow> GameState" where
  "new_game g p =
     \<lparr> game_id = g,
       current_player = p,
       board = map (\<lambda>_. map (\<lambda>_. None) (py_range 4)) (py_range 4),
       available_pieces = set (py_range 16),
       selected_piece = None,
       game_status = ONGOING,
       winner = None,
       turn_count = 0 \<rparr>"

definition get_piece_at :: "GameState \<Rightarrow> int \<Rightarrow> int \<Rightarrow> py_error + QuartoPiece option" where
  "get_piece_at gs row col =
     (if 0 \<le> row \<and> row < 4 \<and> 0 \<le> col \<and> col < 4
      then board_getitem (board gs) row col
      else Inr None)"

section \<open>Rules engine (rules\_engine.py)\<close>

subsection \<open>Piece enumeration\<close>

definition create_piece_from_id :: "int \<Rightarrow> py_error + QuartoPiece" where
  "create_piece_from_id pid =
     (if \<not> (0 \<le> pid \<and> pid \<le> 15) then Inl ValueError
      else Inr \<lparr> piece_id = pid,
                 tall = (and pid 1 \<noteq> 0),
                 square = (and pid 2 \<noteq> 0),
                 light = (and pid 4 \<noteq> 0),
                 solid = (and pid 8 \<noteq> 0) \<rparr>)"

definition get_all_pieces :: "py_error + QuartoPiece list" where
  "get_all_pieces = collect create_piece_from_id (py_range 16)"

subsection \<open>Win detection\<close>

text \<open>
  One generator \<^verbatim>\<open>(piece.attr for piece in pieces)\<close>: reading the attribute of an empty
  cell raises \<^verbatim>\<open>AttributeError\<close>.
\<close>

definition attribute_values ::
  "(QuartoPiece \<Rightarrow> bool) \<Rightarrow> QuartoPiece option list \<Rightarrow> py_error + bool list" where
  "attribute_values attr pieces =
     collect (\<lambda>piece. case piece of None \<Rightarrow> Inl AttributeError | Some p \<Rightarrow> Inr (attr p)) pieces"

definition check_line_for_shared_attribute :: "QuartoPiece option list \<Rightarrow> py_error + bool" where
  "check_line_for_shared_attribute pieces =
     (if length pieces \<noteq> 4 then Inr False
      else any_py
             (\<lambda>attr. case attribute_values attr pieces of
                        Inl e \<Rightarrow> Inl e
                      | Inr vs \<Rightarrow> Inr (card (set vs) = 1))
             [tall, square, light, solid])"

definition check_row_win :: "GameState \<Rightarrow> int \<Rightarrow> py_error + bool" where
  "check_row_win gs row =
     (case collect (\<lambda>col. board_getitem (board gs) row col) (py_range 4) of
        Inl e \<Rightarrow> Inl e
      | Inr pieces \<Rightarrow>
          if list_ex (\<lambda>piece. piece = None) pieces then Inr False
          else check_line_for_shared_attribute pieces)"

definition check_column_win :: "GameState \<Rightarrow> int \<Rightarrow> py_error + bool" where
  "check_column_win gs col =
     (case collect (\<lambda>row. board_getitem (board gs) row col) (py_range 4) of
        Inl e \<Rightarrow> Inl e
      | Inr pieces \<Rightarrow>
          if list_ex (\<lambda>piece. piece = None) pieces then Inr False
          else check_line_for_shared_attribute pieces)"

text \<open>
  Each diagonal is tested by \<^verbatim>\<open>if all(...): if check_line(...): return True\<close>; the
  helper gives the truth value of that nested test.
\<close>

definition diagonal_shares :: "QuartoPiece option list \<Rightarrow> py_error + bool" where
  "diagonal_shares pieces =
     (if list_all (\<lambda>piece. piece \<noteq> None) pieces
      then check_line_for_shared_attribute pieces
      else Inr False)"

definition check_diagonal_wins :: "GameState \<Rightarrow> py_error + bool" where
  "check_diagonal_wins gs =
     (case collect (\<lambda>i. board_getitem (board gs) i i) (py_range 4) of
        Inl e \<Rightarrow> Inl e
      | Inr main_diagonal \<Rightarrow>
          (case diagonal_shares main_diagonal of
             Inl e \<Rightarrow> Inl e
           | Inr True \<Rightarrow> Inr True
           | Inr False \<Rightarrow>
               (case collect (\<lambda>i. board_getitem (board gs) i (3 - i)) (py_range 4) of
                  Inl e \<Rightarrow> Inl e
                | Inr anti_diagonal \<Rightarrow>
                    (case diagonal_shares anti_diagonal of
                       Inl e \<Rightarrow> Inl e
                     | Inr True \<Rightarrow> Inr True
                     | Inr False \<Rightarrow> Inr False))))"

definition check_for_win :: "GameState \<Rightarrow> py_error + bool" where
  "check_for_win gs =
     (case any_py (check_row_win gs) (py_range 4) of
        Inl e \<Rightarrow> Inl e
      | Inr True \<Rightarrow> Inr True
      | Inr False \<Rightarrow>
          (case any_py (check_column_win gs) (py_range 4) of
             Inl e \<Rightarrow> Inl e
           | Inr True \<Rightarrow> Inr True
           | Inr False \<Rightarrow>
               (case check_diagonal_wins gs of
                  Inl e \<Rightarrow> Inl e
                | Inr True \<Rightarrow> Inr True
                | Inr False \<Rightarrow> Inr False)))"

subsection \<open>Move validation\<close>

definition is_valid_piece_selection :: "GameState \<Rightarrow> int \<Rightarrow> bool" where
  "is_valid_piece_selection gs pid =
     (if pid < 0 \<or> pid \<ge> 16 then False
      else if pid \<notin> available_pieces gs then False
      else if selected_piece gs \<noteq> None then False
      else True)"

text \<open>
  The piece argument is optional in the model because \<^verbatim>\<open>make_move\<close> passes
  \<^verbatim>\<open>game_state.selected_piece\<close>, which may be \<^verbatim>\<open>None\<close>. The bounds test comes
  first and short-circuits the board read; \<^verbatim>\<open>piece.id\<close> is read only after
  \<^verbatim>\<open>selected_piece\<close> was found present.
\<close>

definition is_valid_placement ::
  "GameState \<Rightarrow> int \<Rightarrow> int \<Rightarrow> QuartoPiece option \<Rightarrow> py_error + bool" where
  "is_valid_placement gs row col piece =
     (if \<not> (0 \<le> row \<and> row < 4 \<and> 0 \<le> col \<and> col < 4) then Inr False
      else
        (case board_getitem (board gs) row col of
           Inl e \<Rightarrow> Inl e
         | Inr (Some _) \<Rightarrow> Inr False
         | Inr None \<Rightarrow>
             (case selected_piece gs of
                None \<Rightarrow> Inr False
              | Some sel \<Rightarrow>
                  (case piece of
                     None \<Rightarrow> Inl AttributeError
                   | Some p \<Rightarrow> if piece_id p \<noteq> piece_id sel then Inr False else Inr True))))"

subsection \<open>Game flow\<close>

definition switch_player :: "GameState \<Rightarrow> GameState" where
  "switch_player gs =
     (if current_player gs = PLAYER1 then gs\<lparr>current_player := PLAYER2\<rparr>
      else if current_player gs = PLAYER2 then gs\<lparr>current_player := PLAYER1\<rparr>
      else if current_player gs = ROBOT then gs\<lparr>current_player := PLAYER1\<rparr>
      else gs\<lparr>current_player := PLAYER1\<rparr>)"

definition select_piece_for_opponent :: "GameState \<Rightarrow> int \<Rightarrow> (py_error + bool) \<times> GameState" where
  "select_piece_for_opponent gs pid =
     (if \<not> is_valid_piece_selection gs pid then (Inr False, gs)
      else
        (case create_piece_from_id pid of
           Inl e \<Rightarrow> (Inl e, gs)
         | Inr p \<Rightarrow>
             (let gs1 = gs\<lparr>selected_piece := Some p\<rparr> in
              (case set_remove (available_pieces gs1) pid of
                 Inl e \<Rightarrow> (Inl e, gs1)
               | Inr pool \<Rightarrow> (Inr True, switch_player (gs1\<lparr>available_pieces := pool\<rparr>))))))"

subsection \<open>Terminal status\<close>

definition is_game_over :: "GameState \<Rightarrow> bool" where
  "is_game_over gs = (game_status gs \<in> set [FINISHED, DRAW])"

text \<open>\<^verbatim>\<open>len(available_pieces) == 0 and not check_for_win(...)\<close>, the second operand
  evaluated only when the pool is empty.\<close>

definition is_draw :: "GameState \<Rightarrow> py_error + bool" where
  "is_draw gs =
     (if available_pieces gs = {}
      then (case check_for_win gs of Inl e \<Rightarrow> Inl e | Inr w \<Rightarrow> Inr (\<not> w))
      else Inr False)"

definition update_game_status :: "GameState \<Rightarrow> (py_error + unit) \<times> GameState" where
  "update_game_status gs =
     (case check_for_win gs of
        Inl e \<Rightarrow> (Inl e, gs)
      | Inr True \<Rightarrow>
          (Inr (), gs\<lparr>game_status := FINISHED, winner := Some (current_player gs)\<rparr>)
      | Inr False \<Rightarrow>
          (case is_draw gs of
             Inl e \<Rightarrow> (Inl e, gs)
           | Inr True \<Rightarrow> (Inr (), gs\<lparr>game_status := DRAW, winner := None\<rparr>)
           | Inr False \<Rightarrow> (Inr (), gs\<lparr>game_status := ONGOING, winner := None\<rparr>)))"

subsection \<open>Placement\<close>

text \<open>
  The statements of \<^verbatim>\<open>make_move\<close> in their order: the board write, the removal of the
  piece id from the pool, the turn counter, the clearing of the pending piece, the status
  update. Each intermediate state is named, so that an exception leaves the state as the
  statements before it have made it.
\<close>

definition make_move :: "GameState \<Rightarrow> int \<Rightarrow> int \<Rightarrow> (py_error + bool) \<times> GameState" where
  "make_move gs row col =
     (case is_valid_placement gs row col (selected_piece gs) of
        Inl e \<Rightarrow> (Inl e, gs)
      | Inr False \<Rightarrow> (Inr False, gs)
      | Inr True \<Rightarrow>
          (case board_setitem (board gs) row col (selected_piece gs) of
             Inl e \<Rightarrow> (Inl e, gs)
           | Inr b \<Rightarrow>
               (let gs1 = gs\<lparr>board := b\<rparr> in
                (case selected_piece gs1 of
                   None \<Rightarrow> (Inl AttributeError, gs1)
                 | Some p \<Rightarrow>
                     (case set_remove (available_pieces gs1) (piece_id p) of
                        Inl e \<Rightarrow> (Inl e, gs1)
                      | Inr pool \<Rightarrow>
                          (let gs2 = gs1\<lparr>available_pieces := pool\<rparr>;
                               gs3 = gs2\<lparr>turn_count := turn_count gs2 + 1\<rparr>;
                               gs4 = gs3\<lparr>selected_piece := None\<rparr>
                           in (case update_game_status gs4 of
                                 (Inl e, gs5) \<Rightarrow> (Inl e, gs5)
                               | (Inr _, gs5) \<Rightarrow> (Inr True, gs5))))))))"

text \<open>\<^verbatim>\<open>reset_game\<close> assigns the seven fields in this order; \<^verbatim>\<open>game_id\<close> is kept.\<close>

definition reset_game :: "GameState \<Rightarrow> GameState" where
  "reset_game gs =
     gs\<lparr> board := map (\<lambda>_. map (\<lambda>_. None) (py_range 4)) (py_range 4),
         available_pieces := set (py_range 16),
         selected_piece := None,
         game_status := ONGOING,
         winner := None,
         turn_count := 0,
         current_player := PLAYER1 \<rparr>"


section \<open>Specification-side notions\<close>

text \<open>
  The definitions of this section are not taken from the code. They write down the words of
  the specification (the data model and the turn protocol), and the theorems below compare the
  code with them.
\<close>

text \<open>The attribute tuple of a piece, and the piece that the specification assigns to an id:
  bit 0 is the height, bit 1 the shape, bit 2 the colour, bit 3 the fill.\<close>

definition attributes :: "QuartoPiece \<Rightarrow> bool \<times> bool \<times> bool \<times> bool" where
  "attributes p = (tall p, square p, light p, solid p)"

definition piece_of_bits :: "int \<Rightarrow> QuartoPiece" where
  "piece_of_bits pid =
     \<lparr> piece_id = pid, tall = bit pid 0, square = bit pid 1, light = bit pid 2, solid = bit pid 3 \<rparr>"

text \<open>The cyclic switch of the specification: player1 and player2 alternate, the robot yields
  to player1.\<close>

fun next_player :: "Player \<Rightarrow> Player" where
  "next_player PLAYER1 = PLAYER2"
| "next_player PLAYER2 = PLAYER1"
| "next_player ROBOT = PLAYER1"

text \<open>The board of the data model is a 4 by 4 grid: four rows of four cells.\<close>

definition wf_board :: "'a list list \<Rightarrow> bool" where
  "wf_board b = (length b = 4 \<and> list_all (\<lambda>cells. length cells = 4) b)"

definition cell :: "'a list list \<Rightarrow> nat \<Rightarrow> nat \<Rightarrow> 'a" where
  "cell b r c = b ! r ! c"

text \<open>The ten lines: four rows, four columns, the main diagonal and the anti-diagonal.\<close>

definition all_lines :: "(nat \<times> nat) list list" where
  "all_lines =
     map (\<lambda>r. map (\<lambda>c. (r, c)) [0, 1, 2, 3]) [0, 1, 2, 3] @
     map (\<lambda>c. map (\<lambda>r. (r, c)) [0, 1, 2, 3]) [0, 1, 2, 3] @
     [map (\<lambda>i. (i, i)) [0, 1, 2, 3], map (\<lambda>i. (i, 3 - i)) [0, 1, 2, 3]]"

text \<open>Four pieces are unanimous on an attribute when they all have the same value for it;
  a line wins when its four cells are occupied and its pieces are unanimous on at least one
  of the four attributes.\<close>

definition unanimous :: "(QuartoPiece \<Rightarrow> bool) \<Rightarrow> QuartoPiece list \<Rightarrow> bool" where
  "unanimous attr ps = (list_all (\<lambda>p. attr p) ps \<or> list_all (\<lambda>p. \<not> attr p) ps)"

definition line_wins :: "QuartoPiece option list list \<Rightarrow> (nat \<times> nat) list \<Rightarrow> bool" where
  "line_wins b line =
     (list_all (\<lambda>(r, c). cell b r c \<noteq> None) line \<and>
      list_ex (\<lambda>attr. unanimous attr (map (\<lambda>(r, c). the (cell b r c)) line))
        [tall, square, light, solid])"

definition has_winning_line :: "QuartoPiece option list list \<Rightarrow> bool" where
  "has_winning_line b = list_ex (line_wins b) all_lines"

text \<open>The three classes of the piece partition: the pool, the ids placed on the board, the
  id of the pending piece.\<close>

definition placed_ids :: "GameState \<Rightarrow> int set" where
  "placed_ids gs =
     set (concat (map (\<lambda>cells. concat (map (\<lambda>c. case c of None \<Rightarrow> [] | Some p \<Rightarrow> [piece_id p])
                                          cells))
                      (board gs)))"

definition selected_ids :: "GameState \<Rightarrow> int set" where
  "selected_ids gs = (case selected_piece gs of None \<Rightarrow> {} | Some p \<Rightarrow> {piece_id p})"

definition piece_partition :: "GameState \<Rightarrow> bool" where
  "piece_partition gs =
     (available_pieces gs \<inter> placed_ids gs = {} \<and>
      available_pieces gs \<inter> selected_ids gs = {} \<and>
      placed_ids gs \<inter> selected_ids gs = {} \<and>
      available_pieces gs \<union> placed_ids gs \<union> selected_ids gs = {0..15})"

text \<open>The value of one line, given the contents of its four cells.\<close>

definition line_value :: "QuartoPiece option list \<Rightarrow> bool" where
  "line_value pieces =
     (list_all (\<lambda>p. p \<noteq> None) pieces \<and>
      list_ex (\<lambda>attr. unanimous attr (map the pieces)) [tall, square, light, solid])"

subsection \<open>Example states\<close>

text \<open>The row of the specification's second scenario: ids 0, 2, 4, 6 (all short).\<close>

definition short_row :: "QuartoPiece option list" where
  "short_row = [Some (piece_of_bits 0), Some (piece_of_bits 2),
                Some (piece_of_bits 4), Some (piece_of_bits 6)]"

definition empty_row :: "QuartoPiece option list" where
  "empty_row = [None, None, None, None]"

text \<open>A state with that row placed, the rest of the board empty, nothing pending.\<close>

definition row0_state :: GameState where
  "row0_state =
     \<lparr> game_id = ''quarto_game_001'',
       current_player = PLAYER2,
       board = [short_row, empty_row, empty_row, empty_row],
       available_pieces = {0..<16} - {0, 2, 4, 6},
       selected_piece = None,
       game_status = ONGOING,
       winner = None,
       turn_count = 4 \<rparr>"

text \<open>The same position recorded as won by player2.\<close>

definition finished_state :: GameState where
  "finished_state = row0_state\<lparr>game_status := FINISHED, winner := Some PLAYER2\<rparr>"

text \<open>A full row whose pieces (ids 0, 15, 5, 10) agree on no attribute.\<close>

definition mixed_state :: GameState where
  "mixed_state =
     row0_state\<lparr>board := [[Some (piece_of_bits 0), Some (piece_of_bits 15),
                           Some (piece_of_bits 5), Some (piece_of_bits 10)],
                          empty_row, empty_row, empty_row],
                available_pieces := {0..<16} - {0, 15, 5, 10}\<rparr>"

text \<open>Three short pieces in row 0 and the fourth (id 6) pending, its id still in the pool.\<close>

definition pending_state :: GameState where
  "pending_state =
     \<lparr> game_id = ''quarto_game_001'',
       current_player = PLAYER2,
       board = [[Some (piece_of_bits 0), Some (piece_of_bits 2), Some (piece_of_bits 4), None],
                empty_row, empty_row, empty_row],
       available_pieces = {0..<16} - {0, 2, 4},
       selected_piece = Some (piece_of_bits 6),
       game_status = ONGOING,
       winner = None,
       turn_count = 3 \<rparr>"

text \<open>The state of the first scenario after player1 has selected piece 0 for player2.\<close>

definition after_selection :: GameState where
  "after_selection = snd (select_piece_for_opponent (new_game ''quarto_game_001'' PLAYER1) 0)"

section \<open>Properties of the Python primitives\<close>

lemma py_range_4: "py_range 4 = [0, 1, 2, 3]"
  by (simp add: py_range_def upto_rec1)

lemma set_py_range: "set (py_range n) = {0..<n}"
  by (auto simp: py_range_def)

lemma collect_Inr:
  "(\<And>x. x \<in> set xs \<Longrightarrow> f x = Inr (g x)) \<Longrightarrow> collect f xs = Inr (map g xs)"
  by (induction xs) auto

section \<open>Piece enumeration\<close>

lemma and_bits:
  fixes pid :: int
  shows "(and pid 1 \<noteq> 0) = bit pid 0" and "(and pid 2 \<noteq> 0) = bit pid 1"
    and "(and pid 4 \<noteq> 0) = bit pid 2" and "(and pid 8 \<noteq> 0) = bit pid 3"
proof -
  have "and pid (2 ^ n) \<noteq> 0 \<longleftrightarrow> bit pid n" for n
    by (simp add: and_exp_eq_0_iff_not_bit)
  from this[of 0] this[of 1] this[of 2] this[of 3]
  show "(and pid 1 \<noteq> 0) = bit pid 0" and "(and pid 2 \<noteq> 0) = bit pid 1"
    and "(and pid 4 \<noteq> 0) = bit pid 2" and "(and pid 8 \<noteq> 0) = bit pid 3"
    by simp_all
qed

lemma create_piece_in_range:
  "0 \<le> pid \<Longrightarrow> pid \<le> 15 \<Longrightarrow> create_piece_from_id pid = Inr (piece_of_bits pid)"
  by (simp add: create_piece_from_id_def piece_of_bits_def and_bits)

lemma create_piece_out_of_range:
  "pid < 0 \<or> 15 < pid \<Longrightarrow> create_piece_from_id pid = Inl ValueError"
  by (auto simp: create_piece_from_id_def)

lemma small_id_cases:
  fixes pid :: int
  assumes "0 \<le> pid" "pid \<le> 15"
  shows "pid \<in> {0,1,2,3,4,5,6,7,8,9,10,11,12,13,14,15}"
proof -
  have "nat pid < 16" using assms by simp
  then have "nat pid \<in> {0,1,2,3,4,5,6,7,8,9,10,11,12,13,14,15}"
    by (simp add: less_Suc_eq numeral_eq_Suc)
  then have "int (nat pid) \<in> int ` {0,1,2,3,4,5,6,7,8,9,10,11,12,13,14,15}"
    by (rule imageI)
  then show ?thesis using assms by simp
qed

lemma id_from_bits:
  fixes pid :: int
  assumes "0 \<le> pid" "pid \<le> 15"
  shows "pid = of_bool (bit pid 0) + 2 * of_bool (bit pid 1)
               + 4 * of_bool (bit pid 2) + 8 * of_bool (bit pid 3)"
  using small_id_cases[OF assms] by (elim insertE emptyE) simp_all

lemma bits_of_sum:
  fixes t q l s :: bool
  defines "n \<equiv> (of_bool t + 2 * of_bool q + 4 * of_bool l + 8 * of_bool s :: int)"
  shows "0 \<le> n \<and> n \<le> 15 \<and> bit n 0 = t \<and> bit n 1 = q \<and> bit n 2 = l \<and> bit n 3 = s"
  unfolding n_def by (cases t; cases q; cases l; cases s) simp_all

lemma attributes_inj:
  assumes "0 \<le> i" "i \<le> 15" "0 \<le> j" "j \<le> 15"
    and "attributes (piece_of_bits i) = attributes (piece_of_bits j)"
  shows "i = j"
proof -
  from assms(5)
  have "bit i 0 = bit j 0" "bit i 1 = bit j 1" "bit i 2 = bit j 2" "bit i 3 = bit j 3"
    by (simp_all add: attributes_def piece_of_bits_def)
  with id_from_bits[OF assms(1,2)] id_from_bits[OF assms(3,4)] show ?thesis by simp
qed

lemma attributes_surj:
  "\<exists>pid. 0 \<le> pid \<and> pid \<le> 15 \<and> attributes (piece_of_bits pid) = (t, q, l, s)"
proof -
  let ?n = "of_bool t + 2 * of_bool q + 4 * of_bool l + 8 * of_bool s :: int"
  have b: "0 \<le> ?n \<and> ?n \<le> 15 \<and> bit ?n 0 = t \<and> bit ?n 1 = q \<and> bit ?n 2 = l \<and> bit ?n 3 = s"
    by (rule bits_of_sum)
  then have "attributes (piece_of_bits ?n) = (t, q, l, s)"
    unfolding attributes_def piece_of_bits_def by (simp only: QuartoPiece.simps)
  with b show ?thesis by blast
qed

lemma get_all_pieces_eq: "get_all_pieces = Inr (map piece_of_bits [0..15])"
proof -
  have "py_range 16 = [0..15]" by (simp add: py_range_def)
  moreover have "collect create_piece_from_id [0..15] = Inr (map piece_of_bits [0..15])"
    by (rule collect_Inr) (simp add: create_piece_in_range)
  ultimately show ?thesis by (simp add: get_all_pieces_def)
qed

text \<open>
  Claim C8. For an id in \<open>[0,15]\<close>, \<^verbatim>\<open>create_piece_from_id\<close> returns the piece whose
  attributes are the bits of the id (bit 0 tall, bit 1 square, bit 2 light, bit 3 solid), a
  function of the id alone; outside \<open>[0,15]\<close> it raises the range error; two ids of
  \<open>[0,15]\<close> with the same attribute tuple are equal and every tuple of four booleans is the
  tuple of some id; \<^verbatim>\<open>get_all_pieces\<close> is the list of these sixteen pieces, ids ascending.
\<close>

theorem create_piece_from_id_spec:
  "(\<forall>pid. 0 \<le> pid \<and> pid \<le> 15 \<longrightarrow> create_piece_from_id pid = Inr (piece_of_bits pid))
   \<and> (\<forall>pid. pid < 0 \<or> 15 < pid \<longrightarrow> create_piece_from_id pid = Inl ValueError)
   \<and> (\<forall>i j. 0 \<le> i \<and> i \<le> 15 \<and> 0 \<le> j \<and> j \<le> 15 \<and>
         attributes (piece_of_bits i) = attributes (piece_of_bits j) \<longrightarrow> i = j)
   \<and> (\<forall>t q l s. \<exists>pid. 0 \<le> pid \<and> pid \<le> 15 \<and> attributes (piece_of_bits pid) = (t, q, l, s))
   \<and> get_all_pieces = Inr (map piece_of_bits [0..15])
   \<and> map piece_id (map piece_of_bits [0..15]) = [0..15]"
proof (intro conjI allI impI)
  show "map piece_id (map piece_of_bits [0..15]) = [0..15]"
    by (simp add: piece_of_bits_def comp_def)
  show "get_all_pieces = Inr (map piece_of_bits [0..15])"
    by (rule get_all_pieces_eq)
next
  fix pid :: int assume "0 \<le> pid \<and> pid \<le> 15"
  then show "create_piece_from_id pid = Inr (piece_of_bits pid)"
    by (simp add: create_piece_in_range)
next
  fix pid :: int assume "pid < 0 \<or> 15 < pid"
  then show "create_piece_from_id pid = Inl ValueError"
    by (rule create_piece_out_of_range)
next
  fix i j :: int
  assume "0 \<le> i \<and> i \<le> 15 \<and> 0 \<le> j \<and> j \<le> 15 \<and>
         attributes (piece_of_bits i) = attributes (piece_of_bits j)"
  then show "i = j" using attributes_inj[of i j] by simp
next
  fix t q l s
  show "\<exists>pid. 0 \<le> pid \<and> pid \<le> 15 \<and> attributes (piece_of_bits pid) = (t, q, l, s)"
    by (rule attributes_surj)
qed

theorem create_piece_from_id_spec_witness:
  "create_piece_from_id 5
     = Inr \<lparr>piece_id = 5, tall = True, square = False, light = True, solid = False\<rparr>
   \<and> create_piece_from_id 16 = Inl ValueError
   \<and> create_piece_from_id (- 1) = Inl ValueError
   \<and> attributes (piece_of_bits 5) \<noteq> attributes (piece_of_bits 9)
   \<and> (\<exists>pid. 0 \<le> pid \<and> pid \<le> 15 \<and> attributes (piece_of_bits pid) = (True, True, False, True))
   \<and> get_all_pieces = Inr (map piece_of_bits [0,1,2,3,4,5,6,7,8,9,10,11,12,13,14,15])"
proof -
  note spec = create_piece_from_id_spec
  from spec have s1:
    "0 \<le> pid \<and> pid \<le> 15 \<longrightarrow> create_piece_from_id pid = Inr (piece_of_bits pid)" for pid
    by (elim conjE allE)
  from spec have s2:
    "pid < 0 \<or> 15 < pid \<longrightarrow> create_piece_from_id pid = Inl ValueError" for pid
    by (elim conjE allE)
  from spec have s3: "0 \<le> i \<and> i \<le> 15 \<and> 0 \<le> j \<and> j \<le> 15 \<and>
         attributes (piece_of_bits i) = attributes (piece_of_bits j) \<longrightarrow> i = j" for i j
    by (elim conjE allE)
  from spec have s4:
    "\<exists>pid. 0 \<le> pid \<and> pid \<le> 15 \<and> attributes (piece_of_bits pid) = (t, q, l, s)" for t q l s
    by (elim conjE allE)
  from spec have s5: "get_all_pieces = Inr (map piece_of_bits [0..15])"
    by simp
  have a: "create_piece_from_id 5 = Inr (piece_of_bits 5)"
    using s1[of 5] by simp
  have b: "create_piece_from_id 16 = Inl ValueError"
    using s2[of 16] by simp
  have c: "create_piece_from_id (- 1) = Inl ValueError"
    using s2[of "- 1"] by simp
  have d: "attributes (piece_of_bits 5) \<noteq> attributes (piece_of_bits 9)"
    using s3[of 5 9] by auto
  have h: "[0..15::int] = [0,1,2,3,4,5,6,7,8,9,10,11,12,13,14,15]"
    by (simp add: upto_rec1)
  have m: "get_all_pieces = Inr (map piece_of_bits [0,1,2,3,4,5,6,7,8,9,10,11,12,13,14,15])"
    using s5 unfolding h .
  show ?thesis using a b c d s4[of True True False True] m
    by (simp add: piece_of_bits_def)
qed

section \<open>Selection\<close>

lemma switch_player_eq: "switch_player gs = gs\<lparr>current_player := next_player (current_player gs)\<rparr>"
  by (cases "current_player gs") (simp_all add: switch_player_def)

lemma select_valid:
  assumes "0 \<le> pid" "pid \<le> 15" "pid \<in> available_pieces gs" "selected_piece gs = None"
  shows "select_piece_for_opponent gs pid =
           (Inr True, gs\<lparr> selected_piece := Some (piece_of_bits pid),
                           available_pieces := available_pieces gs - {pid},
                           current_player := next_player (current_player gs) \<rparr>)"
  using assms
  by (simp add: select_piece_for_opponent_def is_valid_piece_selection_def
      create_piece_in_range set_remove_def switch_player_eq)

lemma select_invalid:
  assumes "\<not> (0 \<le> pid \<and> pid \<le> 15 \<and> pid \<in> available_pieces gs \<and> selected_piece gs = None)"
  shows "select_piece_for_opponent gs pid = (Inr False, gs)"
  using assms
  by (auto simp: select_piece_for_opponent_def is_valid_piece_selection_def)

text \<open>
  Claim C4. \<^verbatim>\<open>select_piece_for_opponent\<close> returns \<^verbatim>\<open>True\<close> exactly when the id is in
  \<open>[0,15]\<close>, is in the pool and no piece is pending; otherwise it returns \<^verbatim>\<open>False\<close> and
  leaves the state as it was. On success the pending piece is the piece built from the id,
  the id has left the pool, and the current player has been switched: player1 to player2,
  player2 to player1, the robot to player1.
\<close>

theorem select_piece_for_opponent_spec:
  "(fst (select_piece_for_opponent gs pid) = Inr True
      \<longleftrightarrow> 0 \<le> pid \<and> pid \<le> 15 \<and> pid \<in> available_pieces gs \<and> selected_piece gs = None)
   \<and> (fst (select_piece_for_opponent gs pid) \<noteq> Inr True
        \<longrightarrow> select_piece_for_opponent gs pid = (Inr False, gs))
   \<and> (fst (select_piece_for_opponent gs pid) = Inr True
        \<longrightarrow> (\<exists>p. create_piece_from_id pid = Inr p \<and> p = piece_of_bits pid \<and>
                 snd (select_piece_for_opponent gs pid)
                   = gs\<lparr> selected_piece := Some p,
                         available_pieces := available_pieces gs - {pid},
                         current_player := next_player (current_player gs) \<rparr>))"
proof (cases "0 \<le> pid \<and> pid \<le> 15 \<and> pid \<in> available_pieces gs \<and> selected_piece gs = None")
  case True
  then show ?thesis by (simp add: select_valid create_piece_in_range)
next
  case False
  then show ?thesis by (simp add: select_invalid)
qed

theorem select_piece_for_opponent_spec_witness:
  "select_piece_for_opponent (new_game ''quarto_game_001'' PLAYER1) 0
     = (Inr True,
        (new_game ''quarto_game_001'' PLAYER1)
          \<lparr> selected_piece := Some \<lparr>piece_id = 0, tall = False, square = False, light = False, solid = False\<rparr>,
            available_pieces := {0..<16} - {0},
            current_player := PLAYER2 \<rparr>)
   \<and> select_piece_for_opponent (new_game ''quarto_game_001'' ROBOT) 16
     = (Inr False, new_game ''quarto_game_001'' ROBOT)"
proof -
  let ?g = "new_game ''quarto_game_001'' PLAYER1"
  let ?r = "new_game ''quarto_game_001'' ROBOT"
  have a: "0 \<le> (0::int) \<and> (0::int) \<le> 15 \<and> 0 \<in> available_pieces ?g \<and> selected_piece ?g = None"
    by (simp add: new_game_def set_py_range)
  have b: "fst (select_piece_for_opponent ?r 16) \<noteq> Inr True"
    using select_piece_for_opponent_spec[of ?r 16] by simp
  have c: "select_piece_for_opponent ?r 16 = (Inr False, ?r)"
    using select_piece_for_opponent_spec[of ?r 16] b by blast
  have d: "fst (select_piece_for_opponent ?g 0) = Inr True"
    using select_piece_for_opponent_spec[of ?g 0] a by blast
  then have "snd (select_piece_for_opponent ?g 0)
     = ?g\<lparr> selected_piece := Some (piece_of_bits 0),
           available_pieces := available_pieces ?g - {0},
           current_player := next_player (current_player ?g) \<rparr>"
    using select_piece_for_opponent_spec[of ?g 0] by blast
  with d have "select_piece_for_opponent ?g 0 = (Inr True, ?g\<lparr> selected_piece := Some (piece_of_bits 0),
           available_pieces := available_pieces ?g - {0},
           current_player := next_player (current_player ?g) \<rparr>)"
    by (metis prod.collapse)
  then show ?thesis using c
    by (simp add: new_game_def set_py_range piece_of_bits_def)
qed

section \<open>Win detection\<close>

lemma any_py_Inr:
  "(\<And>x. x \<in> set xs \<Longrightarrow> f x = Inr (g x)) \<Longrightarrow> any_py f xs = Inr (list_ex g xs)"
  by (induction xs) (auto split: bool.splits)

lemma list_getitem_in_range:
  "0 \<le> i \<Longrightarrow> i < int (length xs) \<Longrightarrow> list_getitem xs i = Inr (xs ! nat i)"
  by (simp add: list_getitem_def)

lemma wf_board_row: "wf_board b \<Longrightarrow> r < 4 \<Longrightarrow> length (b ! r) = 4"
  by (simp add: wf_board_def list_all_length)

lemma board_getitem_wf:
  assumes "wf_board b" "0 \<le> row" "row < 4" "0 \<le> col" "col < 4"
  shows "board_getitem b row col = Inr (cell b (nat row) (nat col))"
proof -
  have "length b = 4" using assms(1) by (simp add: wf_board_def)
  then have r: "list_getitem b row = Inr (b ! nat row)"
    using assms by (simp add: list_getitem_in_range)
  have "length (b ! nat row) = 4" using assms by (simp add: wf_board_row)
  then have "list_getitem (b ! nat row) col = Inr (b ! nat row ! nat col)"
    using assms by (simp add: list_getitem_in_range)
  with r show ?thesis by (simp add: board_getitem_def cell_def)
qed

lemma not_None_in_set:
  "\<not> list_ex (\<lambda>p. p = None) pieces \<Longrightarrow> x \<in> set pieces \<Longrightarrow> \<exists>y. x = Some y"
  by (cases x) (auto simp: list_ex_iff)

lemma no_None_iff:
  "list_all (\<lambda>p. p \<noteq> None) pieces \<longleftrightarrow> \<not> list_ex (\<lambda>p. p = None) pieces"
  by (induction pieces) auto

lemma card_set_bools:
  fixes vs :: "bool list"
  shows "card (set vs) = 1 \<longleftrightarrow> vs \<noteq> [] \<and> (list_all (\<lambda>v. v) vs \<or> list_all (\<lambda>v. \<not> v) vs)"
    (is "?l \<longleftrightarrow> ?r")
proof
  assume ?l
  then obtain x where x: "set vs = {x}" by (rule card_1_singletonE)
  have ne: "vs \<noteq> []"
  proof
    assume "vs = []"
    with x show False by simp
  qed
  have all: "\<forall>v\<in>set vs. v = x" using x by simp
  show ?r
  proof (cases x)
    case True
    with all have "list_all (\<lambda>v. v) vs" by (simp add: list_all_iff)
    with ne show ?thesis by simp
  next
    case False
    with all have "list_all (\<lambda>v. \<not> v) vs" by (simp add: list_all_iff)
    with ne show ?thesis by simp
  qed
next
  assume r: ?r
  then have ne: "set vs \<noteq> {}" by simp
  from r have "(\<forall>v\<in>set vs. v = True) \<or> (\<forall>v\<in>set vs. v = False)"
    by (simp add: list_all_iff)
  then have "\<exists>x. \<forall>v\<in>set vs. v = x" by (rule disjE) (rule exI, assumption)+
  then obtain x where "\<forall>v\<in>set vs. v = x" ..
  then have "set vs \<subseteq> {x}" by blast
  then have "set vs = {} \<or> set vs = {x}" by (simp only: subset_singleton_iff)
  with ne have "set vs = {x}" by argo
  then show ?l by simp
qed

lemma attribute_values_Some:
  assumes "\<not> list_ex (\<lambda>p. p = None) pieces"
  shows "attribute_values attr pieces = Inr (map (\<lambda>p. attr (the p)) pieces)"
  unfolding attribute_values_def
proof (rule collect_Inr)
  fix x assume "x \<in> set pieces"
  with not_None_in_set[of pieces x] assms obtain y where "x = Some y" by blast
  then show "(case x of None \<Rightarrow> Inl AttributeError | Some p \<Rightarrow> Inr (attr p)) = Inr (attr (the x))"
    by simp
qed

lemma check_line_no_None:
  assumes "length pieces = 4" "\<not> list_ex (\<lambda>p. p = None) pieces"
  shows "check_line_for_shared_attribute pieces
           = Inr (list_ex (\<lambda>attr. unanimous attr (map the pieces)) [tall, square, light, solid])"
proof -
  have ne: "pieces \<noteq> []" using assms(1) by auto
  have "(card (set (map (\<lambda>p. attr (the p)) pieces)) = 1) = unanimous attr (map the pieces)" for attr
    unfolding card_set_bools unanimous_def using ne by (simp add: list_all_iff)
  then have "(case attribute_values attr pieces of Inl e \<Rightarrow> Inl e | Inr vs \<Rightarrow> Inr (card (set vs) = 1))
          = Inr (unanimous attr (map the pieces))" for attr
    by (simp only: attribute_values_Some[OF assms(2)] sum.case)
  then have "any_py (\<lambda>attr. case attribute_values attr pieces of
                        Inl e \<Rightarrow> Inl e
                      | Inr vs \<Rightarrow> Inr (card (set vs) = 1)) [tall, square, light, solid]
         = Inr (list_ex (\<lambda>attr. unanimous attr (map the pieces)) [tall, square, light, solid])"
    by (intro any_py_Inr)
  then show ?thesis
    using assms(1) by (simp only: check_line_for_shared_attribute_def simp_thms if_False)
qed

lemma row_test:
  assumes "length pieces = 4"
  shows "(if list_ex (\<lambda>p. p = None) pieces then Inr False
          else check_line_for_shared_attribute pieces) = Inr (line_value pieces)"
proof (cases "list_ex (\<lambda>p. p = None) pieces")
  case True
  then show ?thesis using no_None_iff[of pieces] by (simp add: line_value_def)
next
  case False
  then have "list_all (\<lambda>p. p \<noteq> None) pieces" using no_None_iff[of pieces] by blast
  with False assms show ?thesis using no_None_iff[of pieces] by (simp add: check_line_no_None line_value_def)
qed

lemma diagonal_shares_eq:
  assumes "length pieces = 4"
  shows "diagonal_shares pieces = Inr (line_value pieces)"
proof -
  have "list_all (\<lambda>p. p \<noteq> None) pieces \<longleftrightarrow> \<not> list_ex (\<lambda>p. p = None) pieces"
    by (rule no_None_iff)
  then show ?thesis using assms
    by (cases "list_ex (\<lambda>p. p = None) pieces")
       (simp_all add: diagonal_shares_def check_line_no_None line_value_def)
qed

lemma line_wins_value:
  "line_wins b line = line_value (map (\<lambda>(r, c). cell b r c) line)"
  by (simp add: line_wins_def line_value_def list_all_iff comp_def case_prod_unfold)

lemma row_cells_wf:
  assumes "wf_board (board gs)" "0 \<le> row" "row < 4"
  shows "collect (\<lambda>col. board_getitem (board gs) row col) (py_range 4)
           = Inr (map (\<lambda>col. cell (board gs) (nat row) (nat col)) [0, 1, 2, 3])"
  unfolding py_range_4
  by (rule collect_Inr) (use assms in \<open>auto simp: board_getitem_wf\<close>)

lemma column_cells_wf:
  assumes "wf_board (board gs)" "0 \<le> col" "col < 4"
  shows "collect (\<lambda>row. board_getitem (board gs) row col) (py_range 4)
           = Inr (map (\<lambda>row. cell (board gs) (nat row) (nat col)) [0, 1, 2, 3])"
  unfolding py_range_4
  by (rule collect_Inr) (use assms in \<open>auto simp: board_getitem_wf\<close>)

lemma main_diagonal_cells_wf:
  assumes "wf_board (board gs)"
  shows "collect (\<lambda>i. board_getitem (board gs) i i) (py_range 4)
           = Inr (map (\<lambda>i. cell (board gs) (nat i) (nat i)) [0, 1, 2, 3])"
  unfolding py_range_4
  by (rule collect_Inr) (use assms in \<open>auto simp: board_getitem_wf\<close>)

lemma anti_diagonal_cells_wf:
  assumes "wf_board (board gs)"
  shows "collect (\<lambda>i. board_getitem (board gs) i (3 - i)) (py_range 4)
           = Inr (map (\<lambda>i. cell (board gs) (nat i) (nat (3 - i))) [0, 1, 2, 3])"
  unfolding py_range_4
  by (rule collect_Inr) (use assms in \<open>auto simp: board_getitem_wf\<close>)

lemma sum_bool_case:
  "(case (Inr b :: py_error + bool) of Inl e \<Rightarrow> Inl e | Inr True \<Rightarrow> Inr True | Inr False \<Rightarrow> X)
     = (if b then Inr True else X)"
  by (cases b) simp_all

lemma check_row_win_wf:
  assumes "wf_board (board gs)" "0 \<le> row" "row < 4"
  shows "check_row_win gs row
           = Inr (line_wins (board gs) (map (\<lambda>c. (nat row, c)) [0, 1, 2, 3]))"
proof -
  let ?ps = "map (\<lambda>col. cell (board gs) (nat row) (nat col)) [0, 1, 2, 3]"
  have len: "length ?ps = 4" by simp
  have "check_row_win gs row
          = (if list_ex (\<lambda>p. p = None) ?ps then Inr False
             else check_line_for_shared_attribute ?ps)"
    unfolding check_row_win_def row_cells_wf[OF assms] by (simp only: sum.case)
  also have "\<dots> = Inr (line_value ?ps)" by (rule row_test[OF len])
  also have "line_value ?ps = line_wins (board gs) (map (\<lambda>c. (nat row, c)) [0, 1, 2, 3])"
    by (simp add: line_wins_value)
  finally show ?thesis .
qed

lemma check_column_win_wf:
  assumes "wf_board (board gs)" "0 \<le> col" "col < 4"
  shows "check_column_win gs col
           = Inr (line_wins (board gs) (map (\<lambda>r. (r, nat col)) [0, 1, 2, 3]))"
proof -
  let ?ps = "map (\<lambda>row. cell (board gs) (nat row) (nat col)) [0, 1, 2, 3]"
  have len: "length ?ps = 4" by simp
  have "check_column_win gs col
          = (if list_ex (\<lambda>p. p = None) ?ps then Inr False
             else check_line_for_shared_attribute ?ps)"
    unfolding check_column_win_def column_cells_wf[OF assms] by (simp only: sum.case)
  also have "\<dots> = Inr (line_value ?ps)" by (rule row_test[OF len])
  also have "line_value ?ps = line_wins (board gs) (map (\<lambda>r. (r, nat col)) [0, 1, 2, 3])"
    by (simp add: line_wins_value)
  finally show ?thesis .
qed

lemma check_diagonal_wins_wf:
  assumes "wf_board (board gs)"
  shows "check_diagonal_wins gs
           = Inr (line_wins (board gs) [(0, 0), (1, 1), (2, 2), (3, 3)]
                  \<or> line_wins (board gs) [(0, 3), (1, 2), (2, 1), (3, 0)])"
proof -
  let ?m = "map (\<lambda>i. cell (board gs) (nat i) (nat i)) [0, 1, 2, 3]"
  let ?a = "map (\<lambda>i. cell (board gs) (nat i) (nat (3 - i))) [0, 1, 2, 3]"
  have m: "diagonal_shares ?m = Inr (line_wins (board gs) [(0, 0), (1, 1), (2, 2), (3, 3)])"
    by (simp add: diagonal_shares_eq line_wins_value)
  have a: "diagonal_shares ?a = Inr (line_wins (board gs) [(0, 3), (1, 2), (2, 1), (3, 0)])"
    by (simp add: diagonal_shares_eq line_wins_value)
  have "check_diagonal_wins gs
          = (if line_wins (board gs) [(0, 0), (1, 1), (2, 2), (3, 3)] then Inr True
             else if line_wins (board gs) [(0, 3), (1, 2), (2, 1), (3, 0)] then Inr True
             else Inr False)"
    unfolding check_diagonal_wins_def main_diagonal_cells_wf[OF assms]
      anti_diagonal_cells_wf[OF assms]
    by (simp only: sum.case m a bool.case_eq_if simp_thms)
  then show ?thesis by simp
qed

lemma rows_wf:
  assumes "wf_board (board gs)"
  shows "any_py (check_row_win gs) (py_range 4)
           = Inr (list_ex (\<lambda>row. line_wins (board gs) (map (\<lambda>c. (nat row, c)) [0, 1, 2, 3])) [0, 1, 2, 3])"
  unfolding py_range_4
  by (rule any_py_Inr) (use assms in \<open>auto simp: check_row_win_wf\<close>)

lemma columns_wf:
  assumes "wf_board (board gs)"
  shows "any_py (check_column_win gs) (py_range 4)
           = Inr (list_ex (\<lambda>col. line_wins (board gs) (map (\<lambda>r. (r, nat col)) [0, 1, 2, 3])) [0, 1, 2, 3])"
  unfolding py_range_4
  by (rule any_py_Inr) (use assms in \<open>auto simp: check_column_win_wf\<close>)

lemma check_for_win_wf:
  assumes "wf_board (board gs)"
  shows "check_for_win gs = Inr (has_winning_line (board gs))"
proof -
  let ?rows = "list_ex (\<lambda>row. line_wins (board gs) (map (\<lambda>c. (nat row, c)) [0, 1, 2, 3])) [0, 1, 2, 3]"
  let ?cols = "list_ex (\<lambda>col. line_wins (board gs) (map (\<lambda>r. (r, nat col)) [0, 1, 2, 3])) [0, 1, 2, 3]"
  let ?diag = "line_wins (board gs) [(0, 0), (1, 1), (2, 2), (3, 3)]
                  \<or> line_wins (board gs) [(0, 3), (1, 2), (2, 1), (3, 0)]"
  have "check_for_win gs
          = (if ?rows then Inr True else if ?cols then Inr True
             else if ?diag then Inr True else Inr False)"
    unfolding check_for_win_def rows_wf[OF assms] columns_wf[OF assms]
      check_diagonal_wins_wf[OF assms]
    by (simp only: sum_bool_case)
  then have "check_for_win gs = Inr (?rows \<or> ?cols \<or> ?diag)" by simp
  moreover have "has_winning_line (board gs) = (?rows \<or> ?cols \<or> ?diag)"
    by (simp add: has_winning_line_def all_lines_def)
  ultimately show ?thesis by simp
qed


text \<open>
  Claim C3. On a 4 by 4 board \<^verbatim>\<open>check_for_win\<close> returns \<^verbatim>\<open>True\<close> exactly when one
  of the ten lines (four rows, four columns, two diagonals) has its four cells occupied by
  pieces that are unanimous on at least one of the attributes tall, square, light, solid. A
  line with an empty cell does not count, and neither does a full line whose pieces share no
  attribute: both are excluded by \<open>line_wins\<close>.
\<close>

theorem check_for_win_spec:
  assumes "wf_board (board gs)"
  shows "check_for_win gs = Inr (has_winning_line (board gs))"
  using assms by (rule check_for_win_wf)

lemmas example_defs = row0_state_def mixed_state_def pending_state_def finished_state_def
  short_row_def empty_row_def

lemma wf_board_examples:
  "wf_board (board row0_state)" "wf_board (board mixed_state)" "wf_board (board pending_state)"
  "wf_board (board finished_state)"
  by (simp_all add: wf_board_def example_defs)

lemma wf_board_new_game: "wf_board (board (new_game g p))"
  by (simp add: wf_board_def new_game_def py_range_4)

text \<open>The second scenario of the specification, a full row without a common attribute, and
  a row with an empty cell.\<close>

theorem check_for_win_spec_witness:
  "wf_board (board row0_state) \<and> check_for_win row0_state = Inr True
   \<and> wf_board (board mixed_state) \<and> check_for_win mixed_state = Inr False
   \<and> wf_board (board pending_state) \<and> check_for_win pending_state = Inr False"
proof -
  have a: "has_winning_line (board row0_state)"
    by (simp add: has_winning_line_def all_lines_def line_wins_def cell_def example_defs
        unanimous_def piece_of_bits_def)
  have b: "\<not> has_winning_line (board mixed_state)"
    by (simp add: has_winning_line_def all_lines_def line_wins_def cell_def example_defs
        unanimous_def piece_of_bits_def)
  have c: "\<not> has_winning_line (board pending_state)"
    by (simp add: has_winning_line_def all_lines_def line_wins_def cell_def example_defs
        unanimous_def piece_of_bits_def)
  show ?thesis
    using check_for_win_spec[OF wf_board_examples(1)] check_for_win_spec[OF wf_board_examples(2)]
      check_for_win_spec[OF wf_board_examples(3)] a b c wf_board_examples
    by simp
qed

section \<open>Reading a cell\<close>

text \<open>
  Claim C10. On a 4 by 4 board \<^verbatim>\<open>get_piece_at\<close> always returns: the content of the cell
  when row and column are both in \<open>[0,3]\<close>, and \<^verbatim>\<open>None\<close> for every other pair of
  integers, so that an out-of-bounds read gives the same answer as the read of an empty cell.
\<close>

theorem get_piece_at_total:
  assumes "wf_board (board gs)"
  shows "get_piece_at gs row col
           = Inr (if 0 \<le> row \<and> row < 4 \<and> 0 \<le> col \<and> col < 4
                  then cell (board gs) (nat row) (nat col) else None)"
  using assms by (simp add: get_piece_at_def board_getitem_wf)

theorem get_piece_at_total_witness:
  "wf_board (board row0_state)
   \<and> get_piece_at row0_state 0 2 = Inr (Some (piece_of_bits 4))
   \<and> get_piece_at row0_state 1 2 = Inr None
   \<and> get_piece_at row0_state 4 0 = Inr None
   \<and> get_piece_at row0_state 0 (- 1) = Inr None"
  using get_piece_at_total[OF wf_board_examples(1), of 0 2]
    get_piece_at_total[OF wf_board_examples(1), of 1 2]
    get_piece_at_total[OF wf_board_examples(1), of 4 0]
    get_piece_at_total[OF wf_board_examples(1), of 0 "- 1"]
    wf_board_examples(1)
  by (simp add: cell_def example_defs)

section \<open>Reset\<close>

text \<open>
  Claim C9 as stated fails for a game that was created with another starting player than
  player1: the reset does not restore that player.
\<close>

theorem reset_game_start_counterexample:
  "reset_game (new_game ''quarto_game_001'' PLAYER2) \<noteq> new_game ''quarto_game_001'' PLAYER2
   \<and> current_player (reset_game (new_game ''quarto_game_001'' PLAYER2)) \<noteq> PLAYER2"
  by (simp add: reset_game_def new_game_def)

text \<open>
  Claim C9, amended. \<^verbatim>\<open>reset_game\<close> turns any state into the freshly created state of the
  same game id with player1 to move: the board is empty, the pool is \<open>{0..15}\<close>, no piece is
  pending, the status is ongoing with no winner, the turn counter is 0 and the current player
  is player1, whichever player the game was created with.
\<close>

theorem reset_game_spec:
  "reset_game gs = new_game (game_id gs) PLAYER1
   \<and> board (reset_game gs) = [[None, None, None, None], [None, None, None, None],
                                [None, None, None, None], [None, None, None, None]]
   \<and> available_pieces (reset_game gs) = {0..15}
   \<and> selected_piece (reset_game gs) = None
   \<and> game_status (reset_game gs) = ONGOING
   \<and> winner (reset_game gs) = None
   \<and> turn_count (reset_game gs) = 0
   \<and> current_player (reset_game gs) = PLAYER1"
proof -
  have "{0..<16::int} = {0..15}" by auto
  then show ?thesis
    by (cases gs) (simp add: reset_game_def new_game_def py_range_4 set_py_range)
qed

theorem reset_game_spec_witness:
  "reset_game finished_state = new_game ''quarto_game_001'' PLAYER1
   \<and> current_player finished_state = PLAYER2"
  using reset_game_spec[of finished_state] by (simp add: example_defs)


section \<open>Placement\<close>

lemma check_row_win_board: "board a = board b \<Longrightarrow> check_row_win a = check_row_win b"
  by (rule ext) (simp add: check_row_win_def)

lemma check_column_win_board: "board a = board b \<Longrightarrow> check_column_win a = check_column_win b"
  by (rule ext) (simp add: check_column_win_def)

lemma check_for_win_board:
  assumes "board a = board b"
  shows "check_for_win a = check_for_win b"
proof -
  have r: "check_row_win a = check_row_win b"
    using assms by (rule check_row_win_board)
  have c: "check_column_win a = check_column_win b"
    using assms by (rule check_column_win_board)
  have d: "check_diagonal_wins a = check_diagonal_wins b"
    unfolding check_diagonal_wins_def assms ..
  show ?thesis unfolding check_for_win_def r c d ..
qed

lemma is_valid_placement_fields:
  assumes "board a = board b" "selected_piece a = selected_piece b"
  shows "is_valid_placement a row col p = is_valid_placement b row col p"
  unfolding is_valid_placement_def assms ..

lemma update_game_status_fst:
  "fst (update_game_status gs) = (case check_for_win gs of Inl e \<Rightarrow> Inl e | Inr _ \<Rightarrow> Inr ())"
  by (simp add: update_game_status_def is_draw_def split: sum.splits bool.splits)

lemma update_game_status_snd:
  "update_game_status gs = (r, gs') \<Longrightarrow>
     gs' = gs \<or> (\<exists>st w. gs' = gs\<lparr>game_status := st, winner := w\<rparr>)"
  by (auto simp: update_game_status_def is_draw_def split: sum.splits bool.splits if_splits)

lemma update_game_status_board:
  assumes "update_game_status gs = (r, gs')"
  shows "board gs' = board gs" and "current_player gs' = current_player gs"
  using update_game_status_snd[OF assms] by auto

lemma update_game_status_win:
  assumes "update_game_status g = (Inr u, gs')" and "check_for_win gs' = Inr True"
  shows "gs' = g\<lparr>game_status := FINISHED, winner := Some (current_player g)\<rparr>"
proof -
  have "board gs' = board g" using assms(1) by (rule update_game_status_board)
  then have "check_for_win g = Inr True"
    using assms(2) check_for_win_board[of gs' g] by simp
  with assms(1) show ?thesis by (simp add: update_game_status_def)
qed

lemma make_move_success:
  assumes "make_move gs row col = (Inr True, gs')"
  shows "\<exists>b p. board_setitem (board gs) row col (selected_piece gs) = Inr b
            \<and> selected_piece gs = Some p \<and> piece_id p \<in> available_pieces gs
            \<and> is_valid_placement gs row col (selected_piece gs) = Inr True
            \<and> update_game_status
                 (gs\<lparr>board := b, available_pieces := available_pieces gs - {piece_id p},
                      turn_count := turn_count gs + 1, selected_piece := None\<rparr>) = (Inr (), gs')"
  using assms
  by (auto simp: make_move_def Let_def set_remove_def
      split: sum.splits bool.splits option.splits prod.splits if_splits)

text \<open>
  Claim C5. When a placement succeeds and \<^verbatim>\<open>check_for_win\<close> holds of the resulting state,
  the status of that state is finished and its winner is the player who was the current player
  when \<^verbatim>\<open>make_move\<close> was called; the placement leaves the current player as it was.
\<close>

theorem make_move_winner:
  assumes "make_move gs row col = (Inr True, gs')" and "check_for_win gs' = Inr True"
  shows "game_status gs' = FINISHED \<and> winner gs' = Some (current_player gs)
         \<and> current_player gs' = current_player gs"
proof -
  from make_move_success[OF assms(1)] obtain b and p :: QuartoPiece where
    u: "update_game_status
          (gs\<lparr>board := b, available_pieces := available_pieces gs - {piece_id p},
               turn_count := turn_count gs + 1, selected_piece := None\<rparr>) = (Inr (), gs')"
    by blast
  from update_game_status_win[OF u assms(2)] show ?thesis by simp
qed

lemma make_move_rejected:
  "fst (make_move gs row col) = Inr False \<Longrightarrow> snd (make_move gs row col) = gs"
  by (auto simp: make_move_def Let_def
      split: sum.splits bool.splits option.splits prod.splits if_splits)

lemma fst_update_pair:
  "fst (case update_game_status g of (Inl e, g') \<Rightarrow> (Inl e, g') | (Inr u, g') \<Rightarrow> (Inr True, g'))
     = (case check_for_win g of Inl e \<Rightarrow> Inl e | Inr w \<Rightarrow> Inr True)"
proof -
  have "fst (case x of (Inl e, g') \<Rightarrow> (Inl e, g') | (Inr u, g') \<Rightarrow> (Inr True, g'))
          = (case fst x of Inl e \<Rightarrow> Inl e | Inr u \<Rightarrow> Inr True)"
    for x :: "(py_error + unit) \<times> GameState"
    by (cases x) (simp split: sum.splits)
  then show ?thesis
    by (simp add: update_game_status_fst split: sum.splits)
qed

lemma fst_make_move:
  "fst (make_move gs row col) =
     (case is_valid_placement gs row col (selected_piece gs) of
        Inl e \<Rightarrow> Inl e
      | Inr False \<Rightarrow> Inr False
      | Inr True \<Rightarrow>
          (case board_setitem (board gs) row col (selected_piece gs) of
             Inl e \<Rightarrow> Inl e
           | Inr b \<Rightarrow>
               (case selected_piece gs of
                  None \<Rightarrow> Inl AttributeError
                | Some p \<Rightarrow>
                    (case set_remove (available_pieces gs) (piece_id p) of
                       Inl e \<Rightarrow> Inl e
                     | Inr pool \<Rightarrow>
                         (case check_for_win (gs\<lparr>board := b\<rparr>) of
                            Inl e \<Rightarrow> Inl e
                          | Inr w \<Rightarrow> Inr True)))))"
proof -
  have w: "check_for_win (gs\<lparr>board := b, available_pieces := pool,
                             turn_count := turn_count gs + 1, selected_piece := None\<rparr>)
             = check_for_win (gs\<lparr>board := b\<rparr>)" for b pool
    by (rule check_for_win_board) simp
  show ?thesis
    unfolding make_move_def Let_def
    by (simp add: fst_update_pair w split: sum.splits bool.splits option.splits)
qed

lemma make_move_status_independent:
  "fst (make_move (gs\<lparr>game_status := st\<rparr>) row col) = fst (make_move gs row col)"
proof -
  have v: "is_valid_placement (gs\<lparr>game_status := st\<rparr>) row col p = is_valid_placement gs row col p" for p
    by (rule is_valid_placement_fields) simp_all
  have w: "check_for_win (gs\<lparr>game_status := st, board := b\<rparr>) = check_for_win (gs\<lparr>board := b\<rparr>)" for b
    by (rule check_for_win_board) simp
  show ?thesis
    by (simp add: fst_make_move v w cong: sum.case_cong bool.case_cong option.case_cong)
qed

lemma select_status_independent:
  "fst (select_piece_for_opponent (gs\<lparr>game_status := st\<rparr>) pid) = fst (select_piece_for_opponent gs pid)"
  by (cases "0 \<le> pid \<and> pid \<le> 15 \<and> pid \<in> available_pieces gs \<and> selected_piece gs = None")
     (simp_all add: select_valid select_invalid)

lemma is_game_over_iff: "is_game_over gs \<longleftrightarrow> game_status gs \<noteq> ONGOING"
  by (cases "game_status gs") (simp_all add: is_game_over_def)

lemma list_setitem_in_range:
  "0 \<le> i \<Longrightarrow> i < int (length xs) \<Longrightarrow> list_setitem xs i v = Inr (xs[nat i := v])"
  by (simp add: list_setitem_def)

lemma board_setitem_wf:
  assumes "wf_board b" "0 \<le> row" "row < 4" "0 \<le> col" "col < 4"
  shows "board_setitem b row col v = Inr (b[nat row := (b ! nat row)[nat col := v]])"
proof -
  have l: "length b = 4" using assms(1) by (simp add: wf_board_def)
  then have r: "list_getitem b row = Inr (b ! nat row)"
    using assms by (simp add: list_getitem_in_range)
  have "length (b ! nat row) = 4" using assms by (simp add: wf_board_row)
  then have s: "list_setitem (b ! nat row) col v = Inr ((b ! nat row)[nat col := v])"
    using assms by (simp add: list_setitem_in_range)
  have "list_setitem b row ((b ! nat row)[nat col := v])
          = Inr (b[nat row := (b ! nat row)[nat col := v]])"
    using assms l by (simp add: list_setitem_in_range)
  with r s show ?thesis by (simp add: board_setitem_def)
qed

lemma wf_board_update:
  assumes "wf_board b" "r < 4"
  shows "wf_board (b[r := (b ! r)[c := v]])"
  using assms by (auto simp: wf_board_def list_all_length nth_list_update)

lemma update_game_status_wf:
  assumes "wf_board (board g)"
  shows "update_game_status g =
           (Inr (),
            g\<lparr>game_status := (if has_winning_line (board g) then FINISHED
                               else if available_pieces g = {} then DRAW else ONGOING),
              winner := (if has_winning_line (board g) then Some (current_player g) else None)\<rparr>)"
  by (simp add: update_game_status_def is_draw_def check_for_win_wf[OF assms])

lemma is_valid_placement_wf:
  assumes "wf_board (board gs)" "0 \<le> row" "row < 4" "0 \<le> col" "col < 4"
  shows "is_valid_placement gs row col (selected_piece gs)
           = Inr (cell (board gs) (nat row) (nat col) = None \<and> selected_piece gs \<noteq> None)"
  using assms
  by (simp add: is_valid_placement_def board_getitem_wf split: option.splits)

lemma make_move_wf:
  assumes "wf_board (board gs)" "0 \<le> row" "row < 4" "0 \<le> col" "col < 4"
    and "cell (board gs) (nat row) (nat col) = None" and "selected_piece gs = Some p"
  shows "make_move gs row col =
           (if piece_id p \<in> available_pieces gs
            then (Inr True,
                  snd (update_game_status
                         (gs\<lparr>board := (board gs)[nat row := (board gs ! nat row)[nat col := Some p]],
                              available_pieces := available_pieces gs - {piece_id p},
                              turn_count := turn_count gs + 1,
                              selected_piece := None\<rparr>)))
            else (Inl KeyError,
                  gs\<lparr>board := (board gs)[nat row := (board gs ! nat row)[nat col := Some p]]\<rparr>))"
proof -
  let ?b = "(board gs)[nat row := (board gs ! nat row)[nat col := Some p]]"
  have v: "is_valid_placement gs row col (Some p) = Inr True"
    using is_valid_placement_wf[OF assms(1-5)] assms(6,7) by simp
  have s: "board_setitem (board gs) row col (Some p) = Inr ?b"
    using assms(1-5) by (rule board_setitem_wf)
  have w: "wf_board ?b" using assms(1,3) by (simp add: wf_board_update)
  show ?thesis
  proof (cases "piece_id p \<in> available_pieces gs")
    case True
    let ?g = "gs\<lparr>board := ?b, available_pieces := available_pieces gs - {piece_id p},
                  turn_count := turn_count gs + 1, selected_piece := None\<rparr>"
    have "wf_board (board ?g)" using w by simp
    from update_game_status_wf[OF this] obtain g' where u: "update_game_status ?g = (Inr (), g')"
      by blast
    show ?thesis using True
      by (simp add: make_move_def v s assms(7) set_remove_def Let_def u)
  next
    case False
    then show ?thesis
      by (simp add: make_move_def v s assms(7) set_remove_def Let_def)
  qed
qed

text \<open>The fourth short piece placed at the end of row 0 by player2, its id still in the pool.\<close>

lemma make_move_pending_state:
  "make_move pending_state 0 3
     = (Inr True, row0_state\<lparr>game_status := FINISHED, winner := Some PLAYER2\<rparr>)"
proof -
  let ?s' = "row0_state\<lparr>game_status := FINISHED, winner := Some PLAYER2\<rparr>"
  have sel: "selected_piece pending_state = Some (piece_of_bits 6)"
    and c: "cell (board pending_state) (nat 0) (nat 3) = None"
    by (simp_all add: example_defs cell_def)
  have b: "(board pending_state)[0 := (board pending_state ! 0)[3 := Some (piece_of_bits 6)]]
             = board row0_state"
    by (simp add: example_defs)
  have hw: "has_winning_line (board row0_state)"
    by (simp add: has_winning_line_def all_lines_def line_wins_def cell_def example_defs
        unanimous_def piece_of_bits_def)
  have mem: "piece_id (piece_of_bits 6) \<in> available_pieces pending_state"
    by (simp add: example_defs piece_of_bits_def)
  have pool: "{0..<16} - {0, 2, 4} - {6::int} = {0..<16} - {0, 2, 4, 6}" by auto
  let ?g = "pending_state\<lparr>board := board row0_state,
                 available_pieces := available_pieces pending_state - {piece_id (piece_of_bits 6)},
                 turn_count := turn_count pending_state + 1, selected_piece := None\<rparr>"
  have g: "?g = row0_state"
    using pool by (simp add: example_defs piece_of_bits_def)
  have u: "update_game_status ?g = (Inr (), ?s')"
    unfolding g using update_game_status_wf[OF wf_board_examples(1)] hw
    by (simp add: example_defs)
  show ?thesis
    using make_move_wf[OF wf_board_examples(3) _ _ _ _ c sel, simplified] mem u
    by (simp add: b)
qed

theorem make_move_winner_witness:
  "make_move pending_state 0 3
     = (Inr True, row0_state\<lparr>game_status := FINISHED, winner := Some PLAYER2\<rparr>)
   \<and> check_for_win (row0_state\<lparr>game_status := FINISHED, winner := Some PLAYER2\<rparr>) = Inr True
   \<and> current_player pending_state = PLAYER2
   \<and> game_status (row0_state\<lparr>game_status := FINISHED, winner := Some PLAYER2\<rparr>) = FINISHED
   \<and> winner (row0_state\<lparr>game_status := FINISHED, winner := Some PLAYER2\<rparr>) = Some PLAYER2"
proof -
  let ?s' = "row0_state\<lparr>game_status := FINISHED, winner := Some PLAYER2\<rparr>"
  have m: "make_move pending_state 0 3 = (Inr True, ?s')"
    by (rule make_move_pending_state)
  have hw: "has_winning_line (board row0_state)"
    by (simp add: has_winning_line_def all_lines_def line_wins_def cell_def example_defs
        unanimous_def piece_of_bits_def)
  have cw: "check_for_win ?s' = Inr True"
    using check_for_win_board[of ?s' row0_state] check_for_win_wf[OF wf_board_examples(1)] hw
    by simp
  from make_move_winner[OF m cw] m cw show ?thesis by (simp add: example_defs)
qed

section \<open>Terminal states\<close>

text \<open>
  Claim C6 as stated fails: in a state recorded as finished, with nothing pending, the
  selection of an available piece is accepted and changes the state.
\<close>

theorem terminal_status_counterexample:
  "game_status finished_state \<noteq> ONGOING
   \<and> select_piece_for_opponent finished_state 1
       = (Inr True, finished_state\<lparr>selected_piece := Some (piece_of_bits 1),
                                    available_pieces := {0..<16} - {0, 2, 4, 6} - {1},
                                    current_player := PLAYER1\<rparr>)
   \<and> snd (select_piece_for_opponent finished_state 1) \<noteq> finished_state"
proof -
  have "select_piece_for_opponent finished_state 1
       = (Inr True, finished_state\<lparr>selected_piece := Some (piece_of_bits 1),
                                    available_pieces := {0..<16} - {0, 2, 4, 6} - {1},
                                    current_player := PLAYER1\<rparr>)"
    by (simp add: select_valid finished_state_def row0_state_def)
  then show ?thesis by (simp add: finished_state_def row0_state_def)
qed

text \<open>
  How the two operations depend on the status field: running either of them on a state whose
  status has been overwritten gives the same result as running it on the state itself; the
  state it leaves is the same with the status overwritten, except that a successful placement
  recomputes status and winner and so leaves the very same state.
\<close>

lemma select_status_restored:
  "select_piece_for_opponent (gs\<lparr>game_status := st\<rparr>) pid
     = (fst (select_piece_for_opponent gs pid),
        (snd (select_piece_for_opponent gs pid))\<lparr>game_status := st\<rparr>)"
  by (cases "0 \<le> pid \<and> pid \<le> 15 \<and> pid \<in> available_pieces gs \<and> selected_piece gs = None")
     (simp_all add: select_valid select_invalid)

lemma update_game_status_status:
  "update_game_status (g\<lparr>game_status := st\<rparr>)
     = (case check_for_win g of
          Inl e \<Rightarrow> (Inl e, g\<lparr>game_status := st\<rparr>)
        | Inr w \<Rightarrow> update_game_status g)"
proof -
  have w: "check_for_win (g\<lparr>game_status := st\<rparr>) = check_for_win g"
    by (rule check_for_win_board) simp
  show ?thesis
    by (simp add: update_game_status_def is_draw_def w split: sum.splits bool.splits)
qed

lemma update_game_status_error:
  "check_for_win g = Inl e \<Longrightarrow> update_game_status g = (Inl e, g)"
  by (simp add: update_game_status_def)

lemma update_game_status_ok:
  "check_for_win g = Inr w \<Longrightarrow> \<exists>g'. update_game_status g = (Inr (), g')"
  by (cases w) (simp_all add: update_game_status_def is_draw_def)

lemma make_move_status_restored:
  "make_move (gs\<lparr>game_status := st\<rparr>) row col
     = (fst (make_move gs row col),
        if fst (make_move gs row col) = Inr True then snd (make_move gs row col)
        else (snd (make_move gs row col))\<lparr>game_status := st\<rparr>)"
proof -
  have v: "is_valid_placement (gs\<lparr>game_status := st\<rparr>) row col p = is_valid_placement gs row col p" for p
    by (rule is_valid_placement_fields) simp_all
  have step: "(case update_game_status (g\<lparr>game_status := st\<rparr>) of
                 (Inl e, g') \<Rightarrow> (Inl e, g') | (Inr u, g') \<Rightarrow> (Inr True, g'))
              = (let r = (case update_game_status g of
                            (Inl e, g') \<Rightarrow> (Inl e, g') | (Inr u, g') \<Rightarrow> (Inr True, g'))
                 in (fst r, if fst r = Inr True then snd r else (snd r)\<lparr>game_status := st\<rparr>))"
    for g
  proof (cases "check_for_win g")
    case (Inl e)
    then show ?thesis
      by (simp add: update_game_status_status update_game_status_error)
  next
    case (Inr w)
    from update_game_status_ok[OF this] obtain g' where "update_game_status g = (Inr (), g')" ..
    with Inr show ?thesis by (simp add: update_game_status_status)
  qed
  have reorder: "gs\<lparr>game_status := st, board := b, available_pieces := pool,
                     turn_count := t, selected_piece := None\<rparr>
                 = gs\<lparr>board := b, available_pieces := pool,
                     turn_count := t, selected_piece := None\<rparr>\<lparr>game_status := st\<rparr>" for b pool t
    by simp
  show ?thesis
    unfolding make_move_def Let_def
    by (simp add: v step[unfolded Let_def] reorder del: GameState.simps
        split: sum.splits bool.splits option.splits)
qed


text \<open>
  Claim C6, amended. In a state whose status is not ongoing, \<^verbatim>\<open>is_game_over\<close> is true,
  which is what callers are expected to test; the engine itself does not look at the status.
  \<^verbatim>\<open>select_piece_for_opponent\<close> returns what it returns on the same state with status
  ongoing and leaves the state which that run leaves, with the terminal status kept.
  \<^verbatim>\<open>make_move\<close> returns what it returns on the same state with status ongoing; when it
  returns \<^verbatim>\<open>True\<close> it leaves exactly the state of that run (status and winner recomputed),
  otherwise the state of that run with the terminal status kept. Whenever one of the two
  operations returns \<^verbatim>\<open>False\<close> the state is left as it was.
\<close>

theorem terminal_status_unchecked:
  assumes "game_status gs \<noteq> ONGOING"
  shows "is_game_over gs
     \<and> select_piece_for_opponent gs pid
         = (fst (select_piece_for_opponent (gs\<lparr>game_status := ONGOING\<rparr>) pid),
            (snd (select_piece_for_opponent (gs\<lparr>game_status := ONGOING\<rparr>) pid))
              \<lparr>game_status := game_status gs\<rparr>)
     \<and> make_move gs row col
         = (fst (make_move (gs\<lparr>game_status := ONGOING\<rparr>) row col),
            if fst (make_move (gs\<lparr>game_status := ONGOING\<rparr>) row col) = Inr True
            then snd (make_move (gs\<lparr>game_status := ONGOING\<rparr>) row col)
            else (snd (make_move (gs\<lparr>game_status := ONGOING\<rparr>) row col))
                   \<lparr>game_status := game_status gs\<rparr>)
     \<and> fst (select_piece_for_opponent gs pid)
         = fst (select_piece_for_opponent (gs\<lparr>game_status := ONGOING\<rparr>) pid)
     \<and> fst (make_move gs row col) = fst (make_move (gs\<lparr>game_status := ONGOING\<rparr>) row col)
     \<and> (fst (select_piece_for_opponent gs pid) = Inr False
          \<longrightarrow> snd (select_piece_for_opponent gs pid) = gs)
     \<and> (fst (make_move gs row col) = Inr False \<longrightarrow> snd (make_move gs row col) = gs)"
proof -
  let ?g0 = "gs\<lparr>game_status := ONGOING\<rparr>"
  have restore: "?g0\<lparr>game_status := game_status gs\<rparr> = gs" by simp
  have s: "select_piece_for_opponent gs pid
         = (fst (select_piece_for_opponent ?g0 pid),
            (snd (select_piece_for_opponent ?g0 pid))\<lparr>game_status := game_status gs\<rparr>)"
    using select_status_restored[where gs = ?g0 and st = "game_status gs" and pid = pid] unfolding restore .
  have m: "make_move gs row col
         = (fst (make_move ?g0 row col),
            if fst (make_move ?g0 row col) = Inr True then snd (make_move ?g0 row col)
            else (snd (make_move ?g0 row col))\<lparr>game_status := game_status gs\<rparr>)"
    using make_move_status_restored[where gs = ?g0 and st = "game_status gs" and row = row and col = col] unfolding restore .
  have r: "fst (select_piece_for_opponent gs pid) = Inr False
          \<longrightarrow> snd (select_piece_for_opponent gs pid) = gs"
    by (cases "0 \<le> pid \<and> pid \<le> 15 \<and> pid \<in> available_pieces gs \<and> selected_piece gs = None")
       (simp_all add: select_valid select_invalid)
  have fs: "fst (select_piece_for_opponent gs pid) = fst (select_piece_for_opponent ?g0 pid)"
    by (simp add: select_status_independent)
  have fm: "fst (make_move gs row col) = fst (make_move ?g0 row col)"
    by (simp add: make_move_status_independent)
  from assms have o: "is_game_over gs" by (simp add: is_game_over_iff)
  from o s m fs fm r make_move_rejected[of gs row col] show ?thesis by blast
qed

theorem terminal_status_unchecked_witness:
  "game_status finished_state \<noteq> ONGOING \<and> is_game_over finished_state
   \<and> select_piece_for_opponent finished_state 1
       = (Inr True, finished_state\<lparr>selected_piece := Some (piece_of_bits 1),
                                    available_pieces := {0..<16} - {0, 2, 4, 6} - {1},
                                    current_player := PLAYER1\<rparr>)
   \<and> select_piece_for_opponent finished_state 0 = (Inr False, finished_state)
   \<and> make_move finished_state 1 1 = (Inr False, finished_state)
   \<and> game_status (pending_state\<lparr>game_status := DRAW\<rparr>) \<noteq> ONGOING
   \<and> make_move (pending_state\<lparr>game_status := DRAW\<rparr>) 0 3
       = (Inr True, row0_state\<lparr>game_status := FINISHED, winner := Some PLAYER2\<rparr>)"
proof -
  let ?d = "pending_state\<lparr>game_status := DRAW\<rparr>"
  have st: "game_status finished_state \<noteq> ONGOING"
    by (simp add: finished_state_def)
  have sd: "game_status ?d \<noteq> ONGOING" by simp
  have f0: "finished_state\<lparr>game_status := ONGOING\<rparr> = row0_state\<lparr>winner := Some PLAYER2\<rparr>"
    by (simp add: example_defs)
  have d0: "?d\<lparr>game_status := ONGOING\<rparr> = pending_state"
    by (simp add: example_defs)
  have s1: "select_piece_for_opponent (row0_state\<lparr>winner := Some PLAYER2\<rparr>) 1
       = (Inr True, row0_state\<lparr>winner := Some PLAYER2, selected_piece := Some (piece_of_bits 1),
                                    available_pieces := {0..<16} - {0, 2, 4, 6} - {1},
                                    current_player := PLAYER1\<rparr>)"
    by (simp add: select_valid row0_state_def)
  have s0: "select_piece_for_opponent (row0_state\<lparr>winner := Some PLAYER2\<rparr>) 0
       = (Inr False, row0_state\<lparr>winner := Some PLAYER2\<rparr>)"
    by (simp add: select_invalid row0_state_def)
  have w: "wf_board (board (row0_state\<lparr>winner := Some PLAYER2\<rparr>))"
    using wf_board_examples(1) by simp
  have "fst (make_move (row0_state\<lparr>winner := Some PLAYER2\<rparr>) 1 1) = Inr False"
    using w by (simp add: fst_make_move is_valid_placement_def board_getitem_wf cell_def example_defs)
  then have m0: "make_move (row0_state\<lparr>winner := Some PLAYER2\<rparr>) 1 1
                  = (Inr False, row0_state\<lparr>winner := Some PLAYER2\<rparr>)"
    using make_move_rejected[of "row0_state\<lparr>winner := Some PLAYER2\<rparr>" 1 1]
    by (metis prod.collapse)
  note a = terminal_status_unchecked[OF st, of 1 1 1, unfolded f0]
  note b = terminal_status_unchecked[OF st, of 0 1 1, unfolded f0]
  note c = terminal_status_unchecked[OF sd, of 0 0 3, unfolded d0]
  have r1: "select_piece_for_opponent finished_state 1
       = (Inr True, finished_state\<lparr>selected_piece := Some (piece_of_bits 1),
                                    available_pieces := {0..<16} - {0, 2, 4, 6} - {1},
                                    current_player := PLAYER1\<rparr>)"
    using a s1 by (simp add: example_defs)
  have r2: "select_piece_for_opponent finished_state 0 = (Inr False, finished_state)"
    using b s0 by (simp add: example_defs)
  have r3: "make_move finished_state 1 1 = (Inr False, finished_state)"
    using a m0 by (simp add: example_defs)
  have r4: "make_move ?d 0 3
       = (Inr True, row0_state\<lparr>game_status := FINISHED, winner := Some PLAYER2\<rparr>)"
    using c make_move_pending_state by simp
  from a st sd r1 r2 r3 r4 show ?thesis by simp
qed


section \<open>Placement after a selection\<close>

text \<open>
  \<^verbatim>\<open>select_piece_for_opponent\<close> removes the chosen id from the pool, and
  \<^verbatim>\<open>make_move\<close> removes the id of the pending piece from the pool again, after it has
  written the board. On every 4 by 4 state with a pending piece whose id has left the pool, a
  placement into an empty in-bounds cell therefore raises \<^verbatim>\<open>KeyError\<close> and leaves the
  board written, with the piece still pending.
\<close>

lemma make_move_pending_raises:
  assumes "wf_board (board gs)" "0 \<le> row" "row < 4" "0 \<le> col" "col < 4"
    and "cell (board gs) (nat row) (nat col) = None"
    and "selected_piece gs = Some p" and "piece_id p \<notin> available_pieces gs"
  shows "make_move gs row col
           = (Inl KeyError,
              gs\<lparr>board := (board gs)[nat row := (board gs ! nat row)[nat col := Some p]]\<rparr>)"
  using make_move_wf[OF assms(1-7)] assms(8) by simp

lemma after_selection_eq:
  "after_selection =
     (new_game ''quarto_game_001'' PLAYER1)
       \<lparr>selected_piece := Some (piece_of_bits 0),
        available_pieces := {0..<16} - {0},
        current_player := PLAYER2\<rparr>"
  by (simp add: after_selection_def select_valid new_game_def set_py_range)

lemma board_after_selection:
  "board after_selection = [empty_row, empty_row, empty_row, empty_row]"
  by (simp add: after_selection_eq new_game_def py_range_4 empty_row_def)

lemma make_move_after_selection:
  "make_move after_selection 0 0
     = (Inl KeyError,
        after_selection\<lparr>board := [[Some (piece_of_bits 0), None, None, None],
                                  empty_row, empty_row, empty_row]\<rparr>)"
proof -
  have w: "wf_board (board after_selection)"
    by (simp add: board_after_selection wf_board_def empty_row_def)
  have c: "cell (board after_selection) (nat 0) (nat 0) = None"
    by (simp add: board_after_selection cell_def empty_row_def)
  have s: "selected_piece after_selection = Some (piece_of_bits 0)"
    by (simp add: after_selection_eq)
  have n: "piece_id (piece_of_bits 0) \<notin> available_pieces after_selection"
    by (simp add: after_selection_eq piece_of_bits_def)
  show ?thesis
    using make_move_pending_raises[OF w _ _ _ _ c s n, simplified]
    by (simp add: board_after_selection empty_row_def)
qed

text \<open>
  Claim C1 at the first scenario of the specification: player1 has selected piece 0, the piece
  is pending, its id is out of the pool, cell (0,0) is empty and in bounds. The claim says that
  \<^verbatim>\<open>make_move\<close> returns \<^verbatim>\<open>True\<close>, clears the pending piece and increments the turn
  counter; the code raises \<^verbatim>\<open>KeyError\<close>, the piece stays pending and the counter is
  unchanged.
\<close>

theorem make_move_after_selection_raises:
  "selected_piece after_selection = Some (piece_of_bits 0)
   \<and> piece_id (piece_of_bits 0) \<notin> available_pieces after_selection
   \<and> get_piece_at after_selection 0 0 = Inr None
   \<and> fst (make_move after_selection 0 0) = Inl KeyError
   \<and> fst (make_move after_selection 0 0) \<noteq> Inr True
   \<and> selected_piece (snd (make_move after_selection 0 0)) \<noteq> None
   \<and> turn_count (snd (make_move after_selection 0 0)) = turn_count after_selection"
proof -
  have w: "wf_board (board after_selection)"
    by (simp add: board_after_selection wf_board_def empty_row_def)
  have "board_getitem (board after_selection) 0 0
          = Inr (cell (board after_selection) (nat 0) (nat 0))"
    using w by (rule board_getitem_wf) simp_all
  then have g: "get_piece_at after_selection 0 0 = Inr None"
    by (simp add: get_piece_at_def cell_def board_after_selection empty_row_def)
  show ?thesis
    by (simp add: g make_move_after_selection) (simp add: after_selection_eq piece_of_bits_def)
qed

text \<open>
  Claim C2 at the same input. The claim says that an engine operation either reports failure
  and changes nothing or applies all of its effects; here \<^verbatim>\<open>make_move\<close> returns neither
  \<^verbatim>\<open>False\<close> nor \<^verbatim>\<open>True\<close>, and leaves a state in which the board has been written
  while the pool, the pending piece and the turn counter are as before.
\<close>

theorem make_move_partial_mutation:
  "fst (make_move after_selection 0 0) \<noteq> Inr False
   \<and> fst (make_move after_selection 0 0) \<noteq> Inr True
   \<and> snd (make_move after_selection 0 0) \<noteq> after_selection
   \<and> snd (make_move after_selection 0 0)
       = after_selection\<lparr>board := [[Some (piece_of_bits 0), None, None, None],
                                   empty_row, empty_row, empty_row]\<rparr>
   \<and> available_pieces (snd (make_move after_selection 0 0)) = available_pieces after_selection
   \<and> selected_piece (snd (make_move after_selection 0 0)) = selected_piece after_selection
   \<and> turn_count (snd (make_move after_selection 0 0)) = turn_count after_selection"
proof -
  have "board (after_selection\<lparr>board := [[Some (piece_of_bits 0), None, None, None],
                                   empty_row, empty_row, empty_row]\<rparr>) \<noteq> board after_selection"
    by (simp add: board_after_selection empty_row_def)
  then have "after_selection\<lparr>board := [[Some (piece_of_bits 0), None, None, None],
                                   empty_row, empty_row, empty_row]\<rparr> \<noteq> after_selection"
    by metis
  then show ?thesis by (simp add: make_move_after_selection)
qed

text \<open>Creation, selection and reset keep the partition.\<close>

lemma piece_partition_new_game: "piece_partition (new_game g p)"
  by (auto simp: piece_partition_def placed_ids_def selected_ids_def new_game_def py_range_4
      set_py_range)

lemma piece_partition_reset: "piece_partition (reset_game gs)"
  by (auto simp: piece_partition_def placed_ids_def selected_ids_def reset_game_def py_range_4
      set_py_range)

lemma placed_ids_fields: "board a = board b \<Longrightarrow> placed_ids a = placed_ids b"
  by (simp add: placed_ids_def)

lemma piece_partition_select:
  assumes "piece_partition gs" and "select_piece_for_opponent gs pid = (r, gs')"
  shows "piece_partition gs'"
proof (cases "0 \<le> pid \<and> pid \<le> 15 \<and> pid \<in> available_pieces gs \<and> selected_piece gs = None")
  case False
  then show ?thesis using assms by (simp add: select_invalid)
next
  case True
  let ?g = "gs\<lparr>selected_piece := Some (piece_of_bits pid),
               available_pieces := available_pieces gs - {pid},
               current_player := next_player (current_player gs)\<rparr>"
  have g: "gs' = ?g" using True assms(2) by (simp add: select_valid)
  have p: "placed_ids ?g = placed_ids gs" by (rule placed_ids_fields) simp
  have s: "selected_ids ?g = {pid}" "selected_ids gs = {}"
    using True by (simp_all add: selected_ids_def piece_of_bits_def)
  have a: "available_pieces ?g = available_pieces gs - {pid}" by simp
  show ?thesis
    using assms(1) True unfolding g piece_partition_def p s a by auto
qed

text \<open>
  Claim C7 at the same input. The new game and the state after the selection satisfy the
  partition; the state that the placement leaves behind has piece 0 both on the board and
  pending, so the classes are no longer disjoint.
\<close>

theorem partition_broken_by_placement:
  "piece_partition (new_game ''quarto_game_001'' PLAYER1)
   \<and> piece_partition after_selection
   \<and> fst (make_move after_selection 0 0) = Inl KeyError
   \<and> placed_ids (snd (make_move after_selection 0 0)) = {0}
   \<and> selected_ids (snd (make_move after_selection 0 0)) = {0}
   \<and> \<not> piece_partition (snd (make_move after_selection 0 0))"
proof -
  have a: "piece_partition after_selection"
    by (auto simp: piece_partition_def placed_ids_def selected_ids_def after_selection_eq
        new_game_def py_range_4 piece_of_bits_def)
  have p: "placed_ids (snd (make_move after_selection 0 0)) = {0}"
    by (simp add: make_move_after_selection placed_ids_def empty_row_def piece_of_bits_def)
  have s: "selected_ids (snd (make_move after_selection 0 0)) = {0}"
    by (simp add: make_move_after_selection selected_ids_def)
       (simp add: after_selection_eq piece_of_bits_def)
  have "\<not> piece_partition (snd (make_move after_selection 0 0))"
    unfolding piece_partition_def p s by simp
  with a p s piece_partition_new_game show ?thesis
    by (simp add: make_move_after_selection)
qed


end
